theory Spec2Isabelle
  imports Complex_Main "HOL-Library.AList"
begin

section \<open>Python floats as the dashboard uses them\<close>

text \<open>
  Closing prices reach the summary loop as Python floats (\<^verbatim>\<open>float(...)\<close> of a numpy
  scalar), which are IEEE 754 binary64 numbers.  \<open>Fin r\<close> is the double of value \<open>r\<close>,
  \<open>Fin 0\<close> the positive zero; the negative zero, the two infinities and NaN are values
  of their own.  An arithmetic operation returns the double nearest to the exact
  result, ties to the even significand, as the hardware does.
\<close>

datatype pyfloat = Fin rat | NegZero | PosInf | NegInf | NaN

datatype exn =
    KeyError string
  | ValueError string
  | TypeError string
  | IndexError string
  | ZeroDivisionError string
  | SourceError string

fun is_nan :: "pyfloat \<Rightarrow> bool" where
  "is_nan NaN = True"
| "is_nan _ = False"

fun is_inf :: "pyfloat \<Rightarrow> bool" where
  "is_inf PosInf = True"
| "is_inf NegInf = True"
| "is_inf _ = False"

fun is_finite :: "pyfloat \<Rightarrow> bool" where
  "is_finite (Fin r) = True"
| "is_finite NegZero = True"
| "is_finite _ = False"

text \<open>The numeric value of a finite float; both zeros have value 0.\<close>

fun fval :: "pyfloat \<Rightarrow> rat" where
  "fval (Fin r) = r"
| "fval _ = 0"

text \<open>The sign bit.\<close>

fun sign_neg :: "pyfloat \<Rightarrow> bool" where
  "sign_neg (Fin r) = (r < 0)"
| "sign_neg NegZero = True"
| "sign_neg NegInf = True"
| "sign_neg _ = False"

text \<open>\<^verbatim>\<open>x == 0\<close>: true of both zeros, false of NaN.\<close>

fun is_zero :: "pyfloat \<Rightarrow> bool" where
  "is_zero (Fin r) = (r = 0)"
| "is_zero NegZero = True"
| "is_zero _ = False"

definition signed_zero :: "bool \<Rightarrow> pyfloat" where
  "signed_zero neg = (if neg then NegZero else Fin 0)"

definition signed_inf :: "bool \<Rightarrow> pyfloat" where
  "signed_inf neg = (if neg then NegInf else PosInf)"

subsection \<open>Rounding to the nearest double\<close>

text \<open>Round to the nearest integer, ties to the even one.\<close>

definition round_half_even :: "rat \<Rightarrow> int" where
  "round_half_even q =
     (let f = \<lfloor>q\<rfloor>; d = q - of_int f
      in if d < 1 / 2 then f
         else if 1 / 2 < d then f + 1
         else if even f then f else f + 1)"

text \<open>The number of binary digits of a positive integer.\<close>

function bit_length :: "int \<Rightarrow> int" where
  "bit_length n = (if n \<le> 0 then 0 else 1 + bit_length (n div 2))"
  by pat_completeness auto
termination
  by (relation "measure (\<lambda>n. nat n)") auto

declare bit_length.simps [simp del]

definition pow2 :: "int \<Rightarrow> rat" where
  "pow2 k = (if 0 \<le> k then 2 ^ nat k else 1 / 2 ^ nat (- k))"

text \<open>
  For a positive \<open>q\<close>, the exponent \<open>e\<close> with \<open>2 ^ e \<le> q < 2 ^ (e + 1)\<close>: the
  difference of the bit lengths of numerator and denominator, or one less.
\<close>

definition floor_log2 :: "rat \<Rightarrow> int" where
  "floor_log2 q =
     (case quotient_of q of
        (a, b) \<Rightarrow>
          (let d = bit_length a - bit_length b
           in if pow2 d \<le> q then d else d - 1))"

text \<open>
  The double nearest to a rational.  A double has a significand of 53 bits and an
  exponent from -1022 to 1023; below that range the spacing stays \<open>2 ^ (-1074)\<close>
  (subnormal numbers, and a zero that keeps the sign), above it the result is an
  infinity.
\<close>

definition round_double :: "rat \<Rightarrow> pyfloat" where
  "round_double q =
     (if q = 0 then Fin 0
      else
       (let e = max (floor_log2 \<bar>q\<bar>) (- 1022);
            m = round_half_even (\<bar>q\<bar> / pow2 (e - 52))
        in if m = 0 then signed_zero (q < 0)
           else if 1023 < e \<or> (e = 1023 \<and> m = 2 ^ 53) then signed_inf (q < 0)
           else Fin (sgn q * of_int m * pow2 (e - 52))))"

subsection \<open>Arithmetic\<close>

text \<open>\<^verbatim>\<open>a - b\<close>.  A zero difference is the positive zero, except \<open>-0.0 - 0.0\<close>.\<close>

definition fsub :: "pyfloat \<Rightarrow> pyfloat \<Rightarrow> pyfloat" where
  "fsub a b =
     (if is_nan a \<or> is_nan b then NaN
      else if is_inf a \<and> is_inf b then (if a = b then NaN else a)
      else if is_inf a then a
      else if is_inf b then signed_inf (\<not> sign_neg b)
      else if fval a - fval b \<noteq> 0 then round_double (fval a - fval b)
      else signed_zero (a = NegZero \<and> b = Fin 0))"

text \<open>\<^verbatim>\<open>a / b\<close>.  Python raises ZeroDivisionError on a zero divisor of either sign.\<close>

definition fdiv :: "pyfloat \<Rightarrow> pyfloat \<Rightarrow> exn + pyfloat" where
  "fdiv a b =
     (if is_zero b then Inl (ZeroDivisionError ''float division by zero'')
      else if is_nan a \<or> is_nan b then Inr NaN
      else if is_inf a \<and> is_inf b then Inr NaN
      else if is_inf a then Inr (signed_inf (sign_neg a \<noteq> sign_neg b))
      else if is_inf b then Inr (signed_zero (sign_neg a \<noteq> sign_neg b))
      else if fval a / fval b \<noteq> 0 then Inr (round_double (fval a / fval b))
      else Inr (signed_zero (sign_neg a \<noteq> sign_neg b)))"

text \<open>\<^verbatim>\<open>a * b\<close>.\<close>

definition fmul :: "pyfloat \<Rightarrow> pyfloat \<Rightarrow> pyfloat" where
  "fmul a b =
     (if is_nan a \<or> is_nan b then NaN
      else if (is_inf a \<and> is_zero b) \<or> (is_zero a \<and> is_inf b) then NaN
      else if is_inf a \<or> is_inf b then signed_inf (sign_neg a \<noteq> sign_neg b)
      else if fval a * fval b \<noteq> 0 then round_double (fval a * fval b)
      else signed_zero (sign_neg a \<noteq> sign_neg b))"

subsection \<open>Rounding and formatting to two decimals\<close>

text \<open>
  \<^verbatim>\<open>round(x, 2)\<close>: the double nearest to the value of \<open>x\<close> rounded to two
  decimals, ties to even.  NaN and the infinities round to themselves, a result of
  zero keeps the sign of \<open>x\<close>.
\<close>

definition py_round2 :: "pyfloat \<Rightarrow> pyfloat" where
  "py_round2 x =
     (if \<not> is_finite x then x
      else let n = round_half_even (fval x * 100)
           in if n = 0 then signed_zero (sign_neg x) else round_double (of_int n / 100))"

definition digit_char :: "nat \<Rightarrow> char" where
  "digit_char d = char_of (48 + d)"

function show_nat :: "nat \<Rightarrow> string" where
  "show_nat n = (if n < 10 then [digit_char n] else show_nat (n div 10) @ [digit_char (n mod 10)])"
  by pat_completeness auto
termination
  by (relation "measure (\<lambda>n. n)") auto

declare show_nat.simps [simp del]

text \<open>
  \<^verbatim>\<open>f"{x:.2f}"\<close>: the value of the double in decimal, rounded to two decimals, ties
  to even.  The sign bit prints even when the rounded magnitude is zero.
\<close>

definition format_2f :: "pyfloat \<Rightarrow> string" where
  "format_2f x =
     (case x of
        NaN \<Rightarrow> ''nan''
      | PosInf \<Rightarrow> ''inf''
      | NegInf \<Rightarrow> ''-inf''
      | _ \<Rightarrow>
         (let n = nat (round_half_even (\<bar>fval x\<bar> * 100))
          in (if sign_neg x then ''-'' else '''') @ show_nat (n div 100) @ ''.''
             @ [digit_char (n mod 100 div 10), digit_char (n mod 10)]))"

section \<open>Data frames\<close>

text \<open>
  A pandas DataFrame as the program uses it: a named index, column labels, and one row
  per observation holding its index label and its cells in column order.  Only frames
  with a single level of column labels are modelled.
\<close>

datatype cell = Num pyfloat | Txt string | Stamp int | Pos nat

record row =
  label :: cell
  cells :: "cell list"

record frame =
  index_name :: "string option"
  columns :: "string list"
  rows :: "row list"

text \<open>\<^verbatim>\<open>name in data\<close>\<close>

definition has_column :: "frame \<Rightarrow> string \<Rightarrow> bool" where
  "has_column data name = (name \<in> set (columns data))"

text \<open>\<^verbatim>\<open>data.empty\<close>: an axis of length zero.\<close>

definition df_empty :: "frame \<Rightarrow> bool" where
  "df_empty data = (columns data = [] \<or> rows data = [])"

text \<open>The cells of one row under the columns called \<open>name\<close>.\<close>

definition row_get :: "string list \<Rightarrow> string \<Rightarrow> row \<Rightarrow> cell list" where
  "row_get cols name r = map snd (filter (\<lambda>(c, v). c = name) (zip cols (cells r)))"

text \<open>\<^verbatim>\<open>data[name].to_numpy().flatten()\<close>, row by row.\<close>

definition getitem_flat :: "frame \<Rightarrow> string \<Rightarrow> cell list" where
  "getitem_flat data name = concat (map (row_get (columns data) name) (rows data))"

text \<open>
  \<^verbatim>\<open>data[name] = v\<close> with a scalar \<open>v\<close>: an existing column is overwritten in every
  row, a new one is appended.
\<close>

definition setitem :: "frame \<Rightarrow> string \<Rightarrow> cell \<Rightarrow> frame" where
  "setitem data name v =
     (if has_column data name
      then data\<lparr>rows := map (\<lambda>r. r\<lparr>cells := map (\<lambda>(c, x). if c = name then v else x)
                                              (zip (columns data) (cells r))\<rparr>) (rows data)\<rparr>
      else data\<lparr>columns := columns data @ [name],
                rows := map (\<lambda>r. r\<lparr>cells := cells r @ [v]\<rparr>) (rows data)\<rparr>)"

text \<open>
  \<^verbatim>\<open>float(c)\<close> of a cell.  A \<open>Txt\<close> cell stands for an object that is no float
  literal (a symbol tag, a label); a time stamp cannot be converted.
\<close>

fun py_float :: "cell \<Rightarrow> exn + pyfloat" where
  "py_float (Num x) = Inr x"
| "py_float (Pos n) = Inr (Fin (of_nat n))"
| "py_float (Txt s) = Inl (ValueError ''could not convert string to float'')"
| "py_float (Stamp t) = Inl (TypeError ''float() argument must be a string or a real number'')"

section \<open>The summary table\<close>

record summary_row =
  Symbol :: string
  Start_Price :: pyfloat
  End_Price :: pyfloat
  Pct_Change :: string

datatype message =
    FetchErrorPrinted string exn
  | SkippingPrinted string exn
  | InfoBox string string
  | WarningBox string string
  | ErrorBox string string
  | ErrorBoxExn string string exn

text \<open>
  \<^verbatim>\<open>change_pct = float(((end_price - start_price) / start_price) * 100)\<close>
\<close>

definition change_pct :: "pyfloat \<Rightarrow> pyfloat \<Rightarrow> exn + pyfloat" where
  "change_pct start_price end_price =
     (case fdiv (fsub end_price start_price) start_price of
        Inl e \<Rightarrow> Inl e
      | Inr q \<Rightarrow> Inr (fmul q (Fin 100)))"

text \<open>
  The body of the summary loop for one symbol (lines 132 to 151): \<open>Skipped\<close> is a
  \<^verbatim>\<open>continue\<close>, \<open>Failed\<close> an exception caught and printed by the loop's handler.
\<close>

datatype row_result = Skipped | Failed exn | Appended summary_row

definition summary_entry :: "string \<Rightarrow> frame \<Rightarrow> row_result" where
  "summary_entry symb data =
     (if \<not> has_column data ''Close'' \<or> rows data = [] then Skipped
      else
       (case getitem_flat data ''Close'' of
          [] \<Rightarrow> Failed (IndexError ''index 0 is out of bounds'')
        | c # cs \<Rightarrow>
           (case py_float c of
              Inl e \<Rightarrow> Failed e
            | Inr start_price \<Rightarrow>
               (case py_float (last (c # cs)) of
                  Inl e \<Rightarrow> Failed e
                | Inr end_price \<Rightarrow>
                   (if is_zero start_price then Skipped
                    else
                     (case change_pct start_price end_price of
                        Inl e \<Rightarrow> Failed e
                      | Inr pct \<Rightarrow>
                         Appended \<lparr>Symbol = symb,
                                   Start_Price = py_round2 start_price,
                                   End_Price = py_round2 end_price,
                                   Pct_Change = format_2f pct @ ''%''\<rparr>))))))"

text \<open>The loop over \<^verbatim>\<open>combined_data.items()\<close>: the rows appended and the lines printed.\<close>

fun summary_loop :: "(string \<times> frame) list \<Rightarrow> summary_row list \<times> message list" where
  "summary_loop [] = ([], [])"
| "summary_loop ((symb, data) # items) =
     (let (summary_data, out) = summary_loop items
      in (case summary_entry symb data of
            Skipped \<Rightarrow> (summary_data, out)
          | Failed e \<Rightarrow> (summary_data, SkippingPrinted symb e # out)
          | Appended r \<Rightarrow> (r # summary_data, out)))"

definition summarize :: "(string \<times> frame) list \<Rightarrow> summary_row list" where
  "summarize items = fst (summary_loop items)"

section \<open>Process state and the data source\<close>

text \<open>
  DataFrames are objects: \<open>objs\<close> is the store, an address is a position in it, and
  the dictionaries hold addresses.  \<open>net_log\<close> records the requests sent to the data
  source (symbol, period, interval).  The two globals of the module start as None.
\<close>

record app_state =
  objs :: "frame list"
  net_log :: "(string \<times> string \<times> string) list"
  latest_summary_df :: "summary_row list option"
  latest_combined_data :: "(string \<times> nat) list option"

definition init_state :: app_state where
  "init_state = \<lparr>objs = [], net_log = [], latest_summary_df = None, latest_combined_data = None\<rparr>"

text \<open>
  The external source: what the \<open>n\<close>-th request of the process answers, an exception,
  None, or a frame.
\<close>

datatype download_result = Raises exn | Returns "frame option"

type_synonym source = "nat \<Rightarrow> string \<Rightarrow> string \<Rightarrow> string \<Rightarrow> download_result"

text \<open>\<^verbatim>\<open>yf.download(symb, period=period, interval=interval, ...)\<close>: a frame returned is a new object.\<close>

definition yf_download ::
  "source \<Rightarrow> string \<Rightarrow> string \<Rightarrow> string \<Rightarrow> app_state \<Rightarrow> (exn + nat option) \<times> app_state" where
  "yf_download src symb period interval st =
     (let st1 = st\<lparr>net_log := net_log st @ [(symb, period, interval)]\<rparr>
      in (case src (length (net_log st)) symb period interval of
            Raises e \<Rightarrow> (Inl e, st1)
          | Returns None \<Rightarrow> (Inr None, st1)
          | Returns (Some d) \<Rightarrow> (Inr (Some (length (objs st1))), st1\<lparr>objs := objs st1 @ [d]\<rparr>)))"

text \<open>The values of a dictionary of frames, read from the store.\<close>

definition dict_items :: "frame list \<Rightarrow> (string \<times> nat) list \<Rightarrow> (string \<times> frame) list" where
  "dict_items os d = map (\<lambda>(symb, a). (symb, os ! a)) d"

section \<open>fetch\_crypto\_data\<close>

text \<open>
  One turn of the loop of lines 16 to 25.  \<open>AList.update\<close> is the assignment
  \<^verbatim>\<open>data_dict[symb] = data\<close> of an insertion-ordered dictionary: a key already there
  keeps its place and takes the new value.
\<close>

definition fetch_step ::
  "source \<Rightarrow> string \<Rightarrow> string \<Rightarrow> string
     \<Rightarrow> app_state \<times> (string \<times> nat) list \<times> message list
     \<Rightarrow> app_state \<times> (string \<times> nat) list \<times> message list" where
  "fetch_step src period interval symb acc =
     (case acc of (st, data_dict, out) \<Rightarrow>
       (case yf_download src symb period interval st of
          (Inl e, st1) \<Rightarrow> (st1, data_dict, out @ [FetchErrorPrinted symb e])
        | (Inr None, st1) \<Rightarrow> (st1, data_dict, out)
        | (Inr (Some a), st1) \<Rightarrow>
            (if \<not> df_empty (objs st1 ! a)
             then (st1\<lparr>objs := (objs st1)[a := setitem (objs st1 ! a) ''Symbol'' (Txt symb)]\<rparr>,
                   AList.update symb a data_dict, out)
             else (st1, data_dict, out))))"

fun fetch_loop ::
  "source \<Rightarrow> string \<Rightarrow> string \<Rightarrow> string list
     \<Rightarrow> app_state \<times> (string \<times> nat) list \<times> message list
     \<Rightarrow> app_state \<times> (string \<times> nat) list \<times> message list" where
  "fetch_loop src period interval [] acc = acc"
| "fetch_loop src period interval (symb # symbols) acc =
     fetch_loop src period interval symbols (fetch_step src period interval symb acc)"

definition fetch_crypto_data ::
  "source \<Rightarrow> string list \<Rightarrow> string \<Rightarrow> string \<Rightarrow> app_state
     \<Rightarrow> app_state \<times> (string \<times> nat) list \<times> message list" where
  "fetch_crypto_data src symbols period interval st =
     fetch_loop src period interval symbols (st, [], [])"

section \<open>Symbol input\<close>

text \<open>\<^verbatim>\<open>text.split(",")\<close>\<close>

fun split_on :: "char \<Rightarrow> string \<Rightarrow> string list" where
  "split_on sep [] = [[]]"
| "split_on sep (c # cs) =
     (if c = sep then [] # split_on sep cs
      else (case split_on sep cs of
              [] \<Rightarrow> [[c]]
            | w # ws \<Rightarrow> (c # w) # ws))"

text \<open>
  A character is a code point below 256.  Among these \<^verbatim>\<open>str.strip()\<close> removes tab,
  line feed, vertical tab, form feed, carriage return, the four separators 28 to 31,
  space, next line (133) and the no-break space (160).
\<close>

definition is_space :: "char \<Rightarrow> bool" where
  "is_space c = (of_char c \<in> {9, 10, 11, 12, 13, 28, 29, 30, 31, 32, 133, 160 :: nat})"

definition strip :: "string \<Rightarrow> string" where
  "strip s = rev (dropWhile is_space (rev (dropWhile is_space s)))"

text \<open>
  \<^verbatim>\<open>[s.strip() for s in crypto_entry.get().split(",") if s.strip()]\<close>
\<close>

definition parse_symbols :: "string \<Rightarrow> string list" where
  "parse_symbols entry = map strip (filter (\<lambda>s. strip s \<noteq> []) (split_on CHR '','' entry))"

section \<open>display\_crypto\_data\<close>

text \<open>
  The plot loop of lines 116 and 117 reads \<^verbatim>\<open>data["Close"]\<close> of every frame, which
  raises KeyError on a frame without that column.  Widget and drawing calls are taken
  not to fail and leave no trace in the state.
\<close>

fun plot_section :: "(string \<times> frame) list \<Rightarrow> exn option" where
  "plot_section [] = None"
| "plot_section ((symb, data) # items) =
     (if has_column data ''Close'' then plot_section items else Some (KeyError ''Close''))"

definition display_crypto_data ::
  "source \<Rightarrow> string \<Rightarrow> string \<Rightarrow> string \<Rightarrow> app_state \<Rightarrow> app_state \<times> message list" where
  "display_crypto_data src entry period interval st =
     (let symbols = parse_symbols entry
      in if symbols = []
         then (st, [WarningBox ''Input Error'' ''Please enter at least one cryptocurrency symbol.''])
         else
          (case fetch_crypto_data src symbols period interval st of
             (st1, combined_data, printed) \<Rightarrow>
              (if combined_data = []
               then (st1, printed @ [ErrorBox ''Error''
                       ''No valid data fetched. Check your symbols or internet connection.''])
               else
                (let st2 = st1\<lparr>latest_combined_data := Some combined_data\<rparr>;
                     items = dict_items (objs st2) combined_data
                 in (case plot_section items of
                       Some e \<Rightarrow> (st2, printed @ [ErrorBoxExn ''Error'' ''An error occurred: '' e])
                     | None \<Rightarrow>
                        (case summary_loop items of
                           (summary_data, skipped) \<Rightarrow>
                            (if summary_data = []
                             then (st2, printed @ skipped @ [InfoBox ''Info''
                                     ''No summary data available for selected symbols.''])
                             else (st2\<lparr>latest_summary_df := Some summary_data\<rparr>,
                                   printed @ skipped))))))))"

section \<open>The exports\<close>

record csv_file =
  header :: "string list"
  lines :: "cell list list"

text \<open>\<^verbatim>\<open>summary_df.to_csv(file_path, index=False)\<close>\<close>

definition summary_to_csv :: "summary_row list \<Rightarrow> csv_file" where
  "summary_to_csv df =
     \<lparr>header = [''Symbol'', ''Start Price'', ''End Price'', ''% Change''],
      lines = map (\<lambda>r. [Txt (Symbol r), Num (Start_Price r), Num (End_Price r), Txt (Pct_Change r)]) df\<rparr>"

text \<open>\<^verbatim>\<open>data.to_csv(file_path, index=False)\<close>\<close>

definition to_csv :: "frame \<Rightarrow> csv_file" where
  "to_csv data = \<lparr>header = columns data, lines = map cells (rows data)\<rparr>"

text \<open>
  \<^verbatim>\<open>pd.concat(frames)\<close>: a new frame.  Its columns are the union of the frames' columns
  in order of first appearance, a cell a frame does not have is NaN, the index keeps
  its name when all frames agree on it.  No frames at all is a ValueError.
\<close>

definition union_columns :: "frame list \<Rightarrow> string list" where
  "union_columns frames = rev (remdups (rev (concat (map columns frames))))"

definition common_index_name :: "frame list \<Rightarrow> string option" where
  "common_index_name frames =
     (case frames of
        [] \<Rightarrow> None
      | d # ds \<Rightarrow> (if list_all (\<lambda>d'. index_name d' = index_name d) ds then index_name d else None))"

definition realign :: "string list \<Rightarrow> string list \<Rightarrow> row \<Rightarrow> row" where
  "realign cols own r =
     r\<lparr>cells := map (\<lambda>c. case map_of (zip own (cells r)) c of Some v \<Rightarrow> v | None \<Rightarrow> Num NaN) cols\<rparr>"

definition pd_concat :: "frame list \<Rightarrow> exn + frame" where
  "pd_concat frames =
     (if frames = [] then Inl (ValueError ''No objects to concatenate'')
      else Inr \<lparr>index_name = common_index_name frames,
                columns = union_columns frames,
                rows = concat (map (\<lambda>d. map (realign (union_columns frames) (columns d)) (rows d)) frames)\<rparr>)"

text \<open>
  \<^verbatim>\<open>data.reset_index(inplace=True)\<close>: the index becomes the first column, under its
  name (\<open>index\<close>, or \<open>level_0\<close>, when it has none), and the rows are numbered from 0.
  A column of that name already there is a ValueError.
\<close>

definition reset_index :: "frame \<Rightarrow> exn + frame" where
  "reset_index data =
     (let name = (case index_name data of
                    Some n \<Rightarrow> n
                  | None \<Rightarrow> (if has_column data ''index'' then ''level_0'' else ''index''))
      in if has_column data name then Inl (ValueError ''cannot insert index column, already exists'')
         else Inr \<lparr>index_name = None,
                   columns = name # columns data,
                   rows = map (\<lambda>(k, r). \<lparr>label = Pos k, cells = label r # cells r\<rparr>)
                              (enumerate 0 (rows data))\<rparr>)"

text \<open>The Combiner of the design: lines 80 and 81 on frame values.\<close>

definition combine :: "frame list \<Rightarrow> exn + frame" where
  "combine frames = (case pd_concat frames of Inl e \<Rightarrow> Inl e | Inr c \<Rightarrow> reset_index c)"

text \<open>
  The exports take what their dialogs and the file system answer: the path chosen
  (empty when the dialog is cancelled) and the exception of the write, if any.  They
  return the state, the boxes shown and the file written.
\<close>

definition export_summary_to_csv ::
  "string \<Rightarrow> exn option \<Rightarrow> app_state \<Rightarrow> app_state \<times> message list \<times> (string \<times> csv_file) option" where
  "export_summary_to_csv file_path io st =
     (case latest_summary_df st of
        None \<Rightarrow> (st, [InfoBox ''No Data'' ''Please fetch data before exporting.''], None)
      | Some df \<Rightarrow>
         (if df = [] then (st, [InfoBox ''No Data'' ''Please fetch data before exporting.''], None)
          else if file_path = [] then (st, [], None)
          else
           (case io of
              Some e \<Rightarrow> (st, [ErrorBoxExn ''Error'' ''Failed to export CSV:'' e], None)
            | None \<Rightarrow>
               (st, [InfoBox ''Export Successful'' (''Summary exported successfully to:'' @ [CHR 0x0A] @ file_path)],
                Some (file_path, summary_to_csv df)))))"

definition export_full_data_to_csv ::
  "string \<Rightarrow> exn option \<Rightarrow> app_state \<Rightarrow> app_state \<times> message list \<times> (string \<times> csv_file) option" where
  "export_full_data_to_csv file_path io st =
     (case latest_combined_data st of
        None \<Rightarrow>
         (st, [InfoBox ''No Data'' ''Please fetch data before exporting full historical dataset.''], None)
      | Some d \<Rightarrow>
         (if file_path = [] then (st, [], None)
          else
           (case pd_concat (map snd (dict_items (objs st) d)) of
              Inl e \<Rightarrow> (st, [ErrorBoxExn ''Error'' ''Failed to export full dataset:'' e], None)
            | Inr c \<Rightarrow>
               (let combined_df = length (objs st);
                    st1 = st\<lparr>objs := objs st @ [c]\<rparr>
                in (case reset_index (objs st1 ! combined_df) of
                      Inl e \<Rightarrow> (st1, [ErrorBoxExn ''Error'' ''Failed to export full dataset:'' e], None)
                    | Inr c' \<Rightarrow>
                       (let st2 = st1\<lparr>objs := (objs st1)[combined_df := c']\<rparr>
                        in (case io of
                              Some e \<Rightarrow>
                               (st2, [ErrorBoxExn ''Error'' ''Failed to export full dataset:'' e], None)
                            | None \<Rightarrow>
                               (st2, [InfoBox ''Export Successful''
                                        (''Full historical data exported to:'' @ [CHR 0x0A] @ file_path)],
                                Some (file_path, to_csv (objs st2 ! combined_df))))))))))"

section \<open>Runs of the process\<close>

text \<open>
  The states the process reaches from its start by pressing the buttons, against one
  data source.
\<close>

inductive reachable :: "source \<Rightarrow> app_state \<Rightarrow> bool" for src :: source where
  start: "reachable src init_state"
| display: "reachable src st \<Longrightarrow> reachable src (fst (display_crypto_data src entry period interval st))"
| export_summary: "reachable src st \<Longrightarrow> reachable src (fst (export_summary_to_csv file_path io st))"
| export_full: "reachable src st \<Longrightarrow> reachable src (fst (export_full_data_to_csv file_path io st))"

section \<open>Notions used to state the properties\<close>

text \<open>
  What the source answers to the requests of one batch, in order, when the batch starts
  as request number \<open>n\<close> of the process.
\<close>

definition answers ::
  "source \<Rightarrow> nat \<Rightarrow> string list \<Rightarrow> string \<Rightarrow> string \<Rightarrow> (string \<times> download_result) list" where
  "answers src n symbols period interval =
     map (\<lambda>(k, symb). (symb, src k symb period interval)) (enumerate n symbols)"

text \<open>The answers that carry data: a frame, and not an empty one.\<close>

fun usable :: "download_result \<Rightarrow> frame list" where
  "usable (Returns (Some d)) = (if df_empty d then [] else [d])"
| "usable _ = []"

definition usable_frames :: "(string \<times> download_result) list \<Rightarrow> (string \<times> frame) list" where
  "usable_frames tr = concat (map (\<lambda>(symb, r). map (Pair symb) (usable r)) tr)"

text \<open>The answers that are exceptions, as the lines the loop prints for them.\<close>

fun failure_line :: "string \<times> download_result \<Rightarrow> message list" where
  "failure_line (symb, Raises e) = [FetchErrorPrinted symb e]"
| "failure_line (symb, Returns r) = []"

text \<open>A list without repetitions, every element at the place of its first occurrence.\<close>

definition first_seen :: "'a list \<Rightarrow> 'a list" where
  "first_seen xs = rev (remdups (rev xs))"

text \<open>What holds of a batch after any number of its symbols.\<close>

definition batch_inv ::
  "source \<Rightarrow> string \<Rightarrow> string \<Rightarrow> app_state \<Rightarrow> string list
     \<Rightarrow> app_state \<times> (string \<times> nat) list \<times> message list \<Rightarrow> bool" where
  "batch_inv src period interval st symbols acc =
     (case acc of (st', dict, out) \<Rightarrow>
        net_log st' = net_log st @ map (\<lambda>s. (s, period, interval)) symbols
      \<and> latest_summary_df st' = latest_summary_df st
      \<and> latest_combined_data st' = latest_combined_data st
      \<and> take (length (objs st)) (objs st') = objs st
      \<and> length (objs st) \<le> length (objs st')
      \<and> map fst dict
          = first_seen (map fst (usable_frames (answers src (length (net_log st)) symbols period interval)))
      \<and> (\<forall>s. map_option (\<lambda>a. objs st' ! a) (map_of dict s)
              = map_option (\<lambda>d. setitem d ''Symbol'' (Txt s))
                  (map_of (rev (usable_frames (answers src (length (net_log st)) symbols period interval))) s))
      \<and> list_all (\<lambda>(s, a). length (objs st) \<le> a \<and> a < length (objs st')) dict
      \<and> out = concat (map failure_line (answers src (length (net_log st)) symbols period interval)))"

text \<open>The stored dictionary, when there is one, is not empty and refers to stored frames.\<close>

definition refs_ok :: "app_state \<Rightarrow> bool" where
  "refs_ok st =
     (case latest_combined_data st of
        None \<Rightarrow> True
      | Some d \<Rightarrow> d \<noteq> [] \<and> list_all (\<lambda>(s, a). a < length (objs st)) d)"

text \<open>The cell of a row under a column label.\<close>

definition cell_of :: "string list \<Rightarrow> row \<Rightarrow> string \<Rightarrow> cell option" where
  "cell_of cols r name = map_of (zip cols (cells r)) name"

text \<open>
  Row \<open>r'\<close> of frame \<open>out\<close> carries row \<open>r\<close> of frame \<open>d\<close>: its first cell is the
  index label of \<open>r\<close>, and every cell of \<open>r\<close> stands in \<open>r'\<close> under the same column.
\<close>

definition carries :: "frame \<Rightarrow> row \<Rightarrow> frame \<Rightarrow> row \<Rightarrow> bool" where
  "carries out r' d r =
     (hd (cells r') = label r
      \<and> list_all (\<lambda>name. case cell_of (columns d) r name of
                            None \<Rightarrow> True
                          | Some v \<Rightarrow> cell_of (columns out) r' name = Some v) (columns d))"


text \<open>
  A frame as the source returns it for a list of closing prices: a \<open>Date\<close> index and
  one \<open>Close\<close> column.  It is used to run the definitions on concrete series.
\<close>

definition close_frame :: "pyfloat list \<Rightarrow> frame" where
  "close_frame closes =
     \<lparr>index_name = Some ''Date'', columns = [''Close''],
      rows = map (\<lambda>(k, c). \<lparr>label = Stamp (int k), cells = [Num c]\<rparr>) (enumerate 0 closes)\<rparr>"

text \<open>
  A source for running the definitions: \<open>AAA\<close> has data (a first price that grows
  with the request number), \<open>BBB\<close> answers an empty frame, \<open>ZZZ\<close> starts at zero, and
  every other symbol raises.
\<close>

definition example_source :: source where
  "example_source n symb period interval =
     (if symb = ''AAA'' then Returns (Some (close_frame [Fin (10 + of_nat n), Fin 12, Fin 15]))
      else if symb = ''BBB'' then Returns (Some (close_frame []))
      else if symb = ''ZZZ'' then Returns (Some (close_frame [Fin 0, Fin 5]))
      else Raises (SourceError ''No data found, symbol may be delisted''))"

section \<open>Properties\<close>

subsection \<open>The summary loop\<close>


lemma row_get_Nil: "name \<notin> set cols \<Longrightarrow> row_get cols name r = []"
  by (auto simp: row_get_def filter_empty_conv dest: set_zip_leftD)

lemma getitem_flat_nonempty:
  "getitem_flat data name \<noteq> [] \<Longrightarrow> has_column data name \<and> rows data \<noteq> []"
  using row_get_Nil [of name "columns data"]
  by (auto simp: getitem_flat_def has_column_def)

lemma summary_entry_Appended:
  "summary_entry symb data = Appended r \<longleftrightarrow>
     (\<exists>c cs p e q. getitem_flat data ''Close'' = c # cs \<and> py_float c = Inr p
        \<and> py_float (last (c # cs)) = Inr e \<and> \<not> is_zero p \<and> fdiv (fsub e p) p = Inr q
        \<and> r = \<lparr>Symbol = symb, Start_Price = py_round2 p, End_Price = py_round2 e,
                Pct_Change = format_2f (fmul q (Fin 100)) @ ''%''\<rparr>)"
proof (cases "getitem_flat data ''Close''")
  case Nil
  then show ?thesis by (simp add: summary_entry_def)
next
  case (Cons c cs)
  then have "has_column data ''Close'' \<and> rows data \<noteq> []"
    using getitem_flat_nonempty [of data "''Close''"] by simp
  with Cons show ?thesis
    by (auto simp: summary_entry_def change_pct_def split: sum.splits)
qed

lemma set_summarize:
  "set (summarize items) = {r. \<exists>(s, d) \<in> set items. summary_entry s d = Appended r}"
proof (induction items)
  case Nil
  show ?case by (simp add: summarize_def)
next
  case (Cons a items)
  obtain s d where a: "a = (s, d)" by (cases a)
  obtain rs out where l: "summary_loop items = (rs, out)" by (cases "summary_loop items")
  with Cons have rs: "set rs = {r. \<exists>(s, d) \<in> set items. summary_entry s d = Appended r}"
    by (simp add: summarize_def)
  show ?case
    by (cases "summary_entry s d") (auto simp: summarize_def a l rs)
qed




text \<open>
  The claim as written fails where it says that the percent change is the exact
  value.  For the closing prices 20000 and 20001 the exact change is \<open>1 / 200\<close>; the
  double the code computes is a little above it, and the string is \<open>0.01%\<close> where the
  exact value would give \<open>0.00%\<close>.
\<close>

theorem percent_change_not_exact_counterexample:
  "change_pct (Fin 20000) (Fin 20001) = Inr (Fin (5764607523034235 / 1152921504606846976))
   \<and> (5764607523034235 / 1152921504606846976 :: rat) \<noteq> (20001 - 20000) / 20000 * 100
   \<and> map Pct_Change (summarize [(''BTC-USD'', close_frame [Fin 20000, Fin 20001])]) = [''0.01%'']
   \<and> format_2f (Fin ((20001 - 20000) / 20000 * 100)) @ ''%'' = ''0.00%''"
  by code_simp

subsection \<open>A series of one observation\<close>

lemma format_zero:
  "format_2f (Fin 0) = ''0.00''" "format_2f NegZero = ''-0.00''" "format_2f NaN = ''nan''"
  by code_simp+

lemma same_price_quotient:
  "\<not> is_zero p \<Longrightarrow> fdiv (fsub p p) p = Inr (if is_finite p then signed_zero (sign_neg p) else NaN)"
  by (cases p) (auto simp: fdiv_def fsub_def signed_zero_def)

lemma zero_times_100:
  "fmul NegZero (Fin 100) = NegZero" "fmul (Fin 0) (Fin 100) = Fin 0" "fmul NaN (Fin 100) = NaN"
  by (simp_all add: fmul_def signed_zero_def)

text \<open>
  Claim C6, as the code has it.  A series of exactly one observation with closing
  price \<open>p\<close> gives no row when \<open>p\<close> is zero.  Otherwise it gives one row whose start
  and end price are both \<open>round(p, 2)\<close>.  For a finite \<open>p\<close> the percent change is a
  zero of the sign of \<open>p\<close>, printed \<open>0.00%\<close> for a positive and \<open>-0.00%\<close> for a
  negative price; for NaN and the infinities it is NaN, printed \<open>nan%\<close>.
\<close>

theorem single_observation_row:
  assumes "length (rows d) = 1" and "getitem_flat d ''Close'' = [c]" and "py_float c = Inr p"
  shows "summarize [(s, d)] =
           (if is_zero p then []
            else [\<lparr>Symbol = s, Start_Price = py_round2 p, End_Price = py_round2 p,
                   Pct_Change = (if \<not> is_finite p then ''nan%''
                                 else if sign_neg p then ''-0.00%'' else ''0.00%'')\<rparr>])
         \<and> (is_finite p \<and> \<not> is_zero p \<longrightarrow> (\<exists>z. change_pct p p = Inr z \<and> is_zero z))"
proof -
  have hc: "has_column d ''Close'' \<and> rows d \<noteq> []"
    using getitem_flat_nonempty [of d "''Close''"] assms(2) by simp
  have pct: "is_finite p \<and> \<not> is_zero p \<longrightarrow> (\<exists>z. change_pct p p = Inr z \<and> is_zero z)"
    using same_price_quotient [of p]
    by (auto simp: change_pct_def zero_times_100 signed_zero_def)
  have "summarize [(s, d)] =
           (if is_zero p then []
            else [\<lparr>Symbol = s, Start_Price = py_round2 p, End_Price = py_round2 p,
                   Pct_Change = (if \<not> is_finite p then ''nan%''
                                 else if sign_neg p then ''-0.00%'' else ''0.00%'')\<rparr>])"
  proof (cases "is_zero p")
    case True
    then show ?thesis using assms hc by (simp add: summarize_def summary_entry_def)
  next
    case False
    then show ?thesis
      using assms hc same_price_quotient [OF False]
      by (simp add: summarize_def summary_entry_def change_pct_def zero_times_100 format_zero
            signed_zero_def)
  qed
  with pct show ?thesis by blast
qed

theorem single_observation_row_witness:
  "length (rows (close_frame [Fin 42])) = 1
   \<and> getitem_flat (close_frame [Fin 42]) ''Close'' = [Num (Fin 42)]
   \<and> py_float (Num (Fin 42)) = Inr (Fin 42)
   \<and> summarize [(''BTC-USD'', close_frame [Fin 42])] =
        [\<lparr>Symbol = ''BTC-USD'', Start_Price = py_round2 (Fin 42), End_Price = py_round2 (Fin 42),
          Pct_Change = ''0.00%''\<rparr>]"
proof -
  have a: "length (rows (close_frame [Fin 42])) = 1" by code_simp
  have b: "getitem_flat (close_frame [Fin 42]) ''Close'' = [Num (Fin 42)]" by code_simp
  have c: "py_float (Num (Fin 42)) = Inr (Fin 42)" by simp
  show ?thesis
    using a b c single_observation_row [OF a b c, of "''BTC-USD''"] by simp
qed

text \<open>
  The claim as written fails on a negative closing price, where the percent string is
  \<open>-0.00%\<close>, and on a missing one (NaN), where it is \<open>nan%\<close>.
\<close>

theorem single_observation_counterexample:
  "map Pct_Change (summarize [(''CL=F'', close_frame [Fin (- 5)])]) = [''-0.00%'']
   \<and> map Pct_Change (summarize [(''CL=F'', close_frame [Fin (- 5)])]) \<noteq> [''0.00%'']
   \<and> map Pct_Change (summarize [(''GAP'', close_frame [NaN])]) = [''nan%'']"
  by code_simp

subsection \<open>The fetch loop\<close>

lemma fetch_step_eq:
  "fetch_step src period interval symb (st, data_dict, out) =
     (let st1 = st\<lparr>net_log := net_log st @ [(symb, period, interval)]\<rparr>
      in (case src (length (net_log st)) symb period interval of
            Raises e \<Rightarrow> (st1, data_dict, out @ [FetchErrorPrinted symb e])
          | Returns None \<Rightarrow> (st1, data_dict, out)
          | Returns (Some d) \<Rightarrow>
              (if df_empty d then (st1\<lparr>objs := objs st @ [d]\<rparr>, data_dict, out)
               else (st1\<lparr>objs := objs st @ [setitem d ''Symbol'' (Txt symb)]\<rparr>,
                     AList.update symb (length (objs st)) data_dict, out))))"
  by (simp add: fetch_step_def yf_download_def Let_def split: download_result.split option.split)

lemma fetch_loop_append:
  "fetch_loop src period interval (xs @ ys) acc =
     fetch_loop src period interval ys (fetch_loop src period interval xs acc)"
  by (induction xs arbitrary: acc) simp_all

lemma df_empty_setitem: "\<not> df_empty d \<Longrightarrow> \<not> df_empty (setitem d name v)"
  by (simp add: df_empty_def setitem_def)

lemma rows_setitem: "rows (setitem d name v) = [] \<longleftrightarrow> rows d = []"
  by (simp add: setitem_def)

lemma answers_snoc:
  "answers src n (xs @ [x]) period interval =
     answers src n xs period interval @ [(x, src (n + length xs) x period interval)]"
  by (simp add: answers_def enumerate_append_eq)

lemma usable_frames_snoc:
  "usable_frames (tr @ [(s, r)]) = usable_frames tr @ map (Pair s) (usable r)"
  by (simp add: usable_frames_def)

lemma set_update_subset: "set (AList.update k v al) \<subseteq> insert (k, v) (set al)"
  by (induction al) auto

lemma first_seen_snoc:
  "first_seen (xs @ [x]) = (if x \<in> set xs then first_seen xs else first_seen xs @ [x])"
  by (simp add: first_seen_def)

lemma set_first_seen: "set (first_seen xs) = set xs"
  by (simp add: first_seen_def)


lemma map_of_rev_snoc:
  "map_of (rev (xs @ [(k, v)])) = (map_of (rev xs))(k \<mapsto> v)"
  by (rule ext) simp

lemma batch_inv_start: "batch_inv src period interval st [] (st, [], [])"
  by (simp add: batch_inv_def answers_def usable_frames_def first_seen_def)

lemma batch_inv_step:
  assumes "batch_inv src period interval st xs acc"
  shows "batch_inv src period interval st (xs @ [x]) (fetch_step src period interval x acc)"
proof -
  obtain st1 dict1 out1 where acc: "acc = (st1, dict1, out1)" by (cases acc)
  let ?tr = "answers src (length (net_log st)) xs period interval"
  from assms have
    n: "net_log st1 = net_log st @ map (\<lambda>s. (s, period, interval)) xs" and
    g1: "latest_summary_df st1 = latest_summary_df st" and
    g2: "latest_combined_data st1 = latest_combined_data st" and
    pre: "take (length (objs st)) (objs st1) = objs st" and
    le: "length (objs st) \<le> length (objs st1)" and
    keys: "map fst dict1 = first_seen (map fst (usable_frames ?tr))" and
    vals: "\<And>s. map_option (\<lambda>a. objs st1 ! a) (map_of dict1 s)
              = map_option (\<lambda>d. setitem d ''Symbol'' (Txt s)) (map_of (rev (usable_frames ?tr)) s)" and
    addr: "list_all (\<lambda>(s, a). length (objs st) \<le> a \<and> a < length (objs st1)) dict1" and
    out: "out1 = concat (map failure_line ?tr)"
    by (simp_all add: batch_inv_def acc)
  have len: "length (net_log st1) = length (net_log st) + length xs" using n by simp
  let ?r = "src (length (net_log st) + length xs) x period interval"
  have tr: "answers src (length (net_log st)) (xs @ [x]) period interval = ?tr @ [(x, ?r)]"
    by (rule answers_snoc)
  have old: "\<And>s a. map_of dict1 s = Some a \<Longrightarrow> a < length (objs st1)"
  proof -
    fix s a assume "map_of dict1 s = Some a"
    then have "(s, a) \<in> set dict1" by (rule map_of_SomeD)
    with addr show "a < length (objs st1)" unfolding list_all_iff by auto
  qed
  show ?thesis
  proof (cases ?r)
    case (Raises e)
    then show ?thesis
      using n g1 g2 pre le keys vals addr out
      by (simp add: batch_inv_def acc fetch_step_eq len tr usable_frames_snoc)
  next
    case (Returns fo)
    show ?thesis
    proof (cases fo)
      case None
      then show ?thesis
        using Returns n g1 g2 pre le keys vals addr out
        by (simp add: batch_inv_def acc fetch_step_eq len tr usable_frames_snoc)
    next
      case (Some d)
      show ?thesis
      proof (cases "df_empty d")
        case True
        have v: "\<And>s. map_option (\<lambda>a. (objs st1 @ [d]) ! a) (map_of dict1 s)
                 = map_option (\<lambda>a. objs st1 ! a) (map_of dict1 s)"
          using old by (case_tac "map_of dict1 s") (simp_all add: nth_append)
        have a': "list_all (\<lambda>(s, a). length (objs st) \<le> a \<and> a < Suc (length (objs st1))) dict1"
          using addr unfolding list_all_iff by auto
        show ?thesis
          using True Some Returns n g1 g2 pre le keys vals a' out v
          by (simp add: batch_inv_def acc fetch_step_eq len tr usable_frames_snoc)
      next
        case False
        let ?d' = "setitem d ''Symbol'' (Txt x)"
        have v: "\<And>s. map_option (\<lambda>a. (objs st1 @ [?d']) ! a) (map_of (AList.update x (length (objs st1)) dict1) s)
                 = (if s = x then Some ?d' else map_option (\<lambda>a. objs st1 ! a) (map_of dict1 s))"
          using old by (case_tac "map_of dict1 s") (simp_all add: nth_append update_conv')
        have a': "list_all (\<lambda>(s, a). length (objs st) \<le> a \<and> a < Suc (length (objs st1)))
                    (AList.update x (length (objs st1)) dict1)"
          using addr le set_update_subset [of x "length (objs st1)" dict1]
          unfolding list_all_iff by fastforce
        have k: "map fst (AList.update x (length (objs st1)) dict1)
                   = first_seen (map fst (usable_frames ?tr) @ [x])"
          using keys set_first_seen [of "map fst (usable_frames ?tr)"]
          by (simp add: update_keys first_seen_snoc)
        show ?thesis
          using False Some Returns n g1 g2 pre le k vals a' out v
          by (simp add: batch_inv_def acc fetch_step_eq len tr usable_frames_snoc map_of_rev_snoc)
      qed
    qed
  qed
qed

lemma batch_inv_loop:
  "batch_inv src period interval st symbols (fetch_loop src period interval symbols (st, [], []))"
proof (induction symbols rule: rev_induct)
  case Nil
  show ?case using batch_inv_start by simp
next
  case (snoc x xs)
  then show ?case using batch_inv_step by (simp add: fetch_loop_append)
qed

lemma fetch_batch_inv:
  "fetch_crypto_data src symbols period interval st = (st', dict, out) \<Longrightarrow>
     batch_inv src period interval st symbols (st', dict, out)"
  using batch_inv_loop [of src period interval st symbols] by (simp add: fetch_crypto_data_def)

lemma usable_frames_member:
  "(s, d) \<in> set (usable_frames tr) \<longleftrightarrow> (s, Returns (Some d)) \<in> set tr \<and> \<not> df_empty d"
proof -
  have u: "\<And>r. d \<in> set (usable r) \<longleftrightarrow> r = Returns (Some d) \<and> \<not> df_empty d"
    by (rule usable.induct) auto
  have "(s, d) \<in> set (usable_frames tr) \<longleftrightarrow> (\<exists>r. (s, r) \<in> set tr \<and> d \<in> set (usable r))"
    by (force simp: usable_frames_def)
  then show ?thesis
    by (simp add: u)
qed

lemma answers_symbol: "(s, r) \<in> set (answers src n symbols period interval) \<Longrightarrow> s \<in> set symbols"
  by (auto simp: answers_def in_set_enumerate_eq)

lemma distinct_first_seen: "distinct (first_seen xs)"
  by (simp add: first_seen_def)

lemma fetch_value:
  assumes "fetch_crypto_data src symbols period interval st = (st', dict, out)"
    and "(s, a) \<in> set dict"
  shows "a < length (objs st') \<and> length (objs st) \<le> a
       \<and> (\<exists>d. (s, Returns (Some d)) \<in> set (answers src (length (net_log st)) symbols period interval)
              \<and> \<not> df_empty d \<and> objs st' ! a = setitem d ''Symbol'' (Txt s))"
proof -
  let ?u = "usable_frames (answers src (length (net_log st)) symbols period interval)"
  note inv = fetch_batch_inv [OF assms(1), unfolded batch_inv_def, simplified]
  from inv have keys: "map fst dict = first_seen (map fst ?u)" by blast
  then have "distinct (map fst dict)" by (simp add: distinct_first_seen)
  with assms(2) have m: "map_of dict s = Some a" by simp
  from inv have "map_option (\<lambda>a. objs st' ! a) (map_of dict s)
              = map_option (\<lambda>d. setitem d ''Symbol'' (Txt s)) (map_of (rev ?u) s)" by blast
  with m obtain d where d: "map_of (rev ?u) s = Some d" "objs st' ! a = setitem d ''Symbol'' (Txt s)"
    by (cases "map_of (rev ?u) s") auto
  from d(1) have "(s, d) \<in> set ?u" using map_of_SomeD by fastforce
  then have u: "(s, Returns (Some d)) \<in> set (answers src (length (net_log st)) symbols period interval)
              \<and> \<not> df_empty d" by (simp add: usable_frames_member)
  from inv have "list_all (\<lambda>(s, a). length (objs st) \<le> a \<and> a < length (objs st')) dict" by blast
  with assms(2) have "length (objs st) \<le> a \<and> a < length (objs st')"
    unfolding list_all_iff by auto
  with d(2) u show ?thesis by blast
qed

lemma fetch_keys:
  assumes "fetch_crypto_data src symbols period interval st = (st', dict, out)"
  shows "fst ` set dict = fst ` set (usable_frames (answers src (length (net_log st)) symbols period interval))"
proof -
  let ?u = "usable_frames (answers src (length (net_log st)) symbols period interval)"
  note inv = fetch_batch_inv [OF assms(1), unfolded batch_inv_def, simplified]
  from inv have keys: "map fst dict = first_seen (map fst ?u)" by blast
  have "fst ` set dict = set (map fst dict)" by simp
  also have "\<dots> = set (map fst ?u)" unfolding keys by (rule set_first_seen)
  finally show ?thesis by simp
qed

text \<open>
  Claim C2.  The mapping a fetch returns has its keys among the symbols requested, and
  every value is a stored frame that is not empty: it has at least one row.  The
  mapping is empty exactly when no request was answered with a non-empty frame.
\<close>

theorem fetch_result_subset_nonempty:
  assumes "fetch_crypto_data src symbols period interval st = (st', data_dict, out)"
  shows "fst ` set data_dict \<subseteq> set symbols
       \<and> list_all (\<lambda>(s, a). a < length (objs st') \<and> \<not> df_empty (objs st' ! a)
                      \<and> rows (objs st' ! a) \<noteq> []) data_dict
       \<and> (data_dict = [] \<longleftrightarrow>
            usable_frames (answers src (length (net_log st)) symbols period interval) = [])"
proof (intro conjI)
  let ?u = "usable_frames (answers src (length (net_log st)) symbols period interval)"
  show "fst ` set data_dict \<subseteq> set symbols"
    unfolding fetch_keys [OF assms]
    by (auto simp: usable_frames_member dest: answers_symbol)
  show "list_all (\<lambda>(s, a). a < length (objs st') \<and> \<not> df_empty (objs st' ! a)
                      \<and> rows (objs st' ! a) \<noteq> []) data_dict"
    unfolding list_all_iff
  proof (intro ballI, clarify)
    fix s a assume "(s, a) \<in> set data_dict"
    from fetch_value [OF assms this] obtain d where
      "a < length (objs st')" "\<not> df_empty d" "objs st' ! a = setitem d ''Symbol'' (Txt s)" by blast
    then show "a < length (objs st') \<and> \<not> df_empty (objs st' ! a) \<and> rows (objs st' ! a) \<noteq> []"
      using df_empty_setitem [of d "''Symbol''" "Txt s"] by (simp add: df_empty_def)
  qed
  have "data_dict = [] \<longleftrightarrow> fst ` set data_dict = {}" by simp
  also have "\<dots> \<longleftrightarrow> ?u = []" unfolding fetch_keys [OF assms] by simp
  finally show "data_dict = [] \<longleftrightarrow> ?u = []" .
qed

theorem fetch_result_subset_nonempty_witness:
  "fst (snd (fetch_crypto_data example_source [''AAA'', ''BBB'', ''QQQ''] ''1mo'' ''1d'' init_state))
     = [(''AAA'', 0)]
   \<and> fst ` set (fst (snd (fetch_crypto_data example_source [''AAA'', ''BBB'', ''QQQ''] ''1mo'' ''1d''
                           init_state)))
       \<subseteq> set [''AAA'', ''BBB'', ''QQQ'']
   \<and> fst (snd (fetch_crypto_data example_source [''BBB'', ''QQQ''] ''1mo'' ''1d'' init_state)) = []"
proof -
  let ?X = "fetch_crypto_data example_source [''AAA'', ''BBB'', ''QQQ''] ''1mo'' ''1d'' init_state"
  have e: "?X = (fst ?X, fst (snd ?X), snd (snd ?X))" by simp
  have c: "fst (snd ?X) = [(''AAA'', 0)]" by code_simp
  have n: "fst (snd (fetch_crypto_data example_source [''BBB'', ''QQQ''] ''1mo'' ''1d'' init_state)) = []"
    by code_simp
  from fetch_result_subset_nonempty [OF e]
  have "fst ` set (fst (snd ?X)) \<subseteq> set [''AAA'', ''BBB'', ''QQQ'']" by blast
  with c n show ?thesis by blast
qed

text \<open>
  Claim C7.  A fetch always returns.  It sends one request for every symbol of the
  batch, in order, whatever the earlier requests answered; the symbols in the result
  are exactly those with a request that was answered with a non-empty frame; and the
  lines printed are exactly the exceptions raised, each with its symbol.
\<close>

theorem fetch_failure_local:
  "\<exists>st' data_dict out.
      fetch_crypto_data src symbols period interval st = (st', data_dict, out)
    \<and> net_log st' = net_log st @ map (\<lambda>s. (s, period, interval)) symbols
    \<and> fst ` set data_dict
        = fst ` set (usable_frames (answers src (length (net_log st)) symbols period interval))
    \<and> out = concat (map failure_line (answers src (length (net_log st)) symbols period interval))"
proof -
  obtain st' data_dict out where
    f: "fetch_crypto_data src symbols period interval st = (st', data_dict, out)"
    by (cases "fetch_crypto_data src symbols period interval st")
  note inv = fetch_batch_inv [OF f, unfolded batch_inv_def, simplified]
  from inv have "net_log st' = net_log st @ map (\<lambda>s. (s, period, interval)) symbols" by blast
  moreover from inv have
    "out = concat (map failure_line (answers src (length (net_log st)) symbols period interval))"
    by blast
  ultimately show ?thesis using f fetch_keys [OF f] by blast
qed

theorem fetch_failure_local_witness:
  "fetch_crypto_data example_source [''QQQ'', ''AAA''] ''1mo'' ''1d'' init_state
     = (fst (fetch_crypto_data example_source [''QQQ'', ''AAA''] ''1mo'' ''1d'' init_state),
        [(''AAA'', 0)],
        [FetchErrorPrinted ''QQQ'' (SourceError ''No data found, symbol may be delisted'')])
   \<and> net_log (fst (fetch_crypto_data example_source [''QQQ'', ''AAA''] ''1mo'' ''1d'' init_state))
       = [(''QQQ'', ''1mo'', ''1d''), (''AAA'', ''1mo'', ''1d'')]"
proof -
  let ?X = "fetch_crypto_data example_source [''QQQ'', ''AAA''] ''1mo'' ''1d'' init_state"
  have d: "fst (snd ?X) = [(''AAA'', 0)]" by code_simp
  have o: "snd (snd ?X) = [FetchErrorPrinted ''QQQ'' (SourceError ''No data found, symbol may be delisted'')]"
    by code_simp
  from fetch_failure_local [of example_source "[''QQQ'', ''AAA'']" "''1mo''" "''1d''" init_state]
  have "net_log (fst ?X) = net_log init_state @ map (\<lambda>s. (s, ''1mo'', ''1d'')) [''QQQ'', ''AAA'']"
    by auto
  then have n: "net_log (fst ?X) = [(''QQQ'', ''1mo'', ''1d''), (''AAA'', ''1mo'', ''1d'')]"
    by (simp add: init_state_def)
  have "?X = (fst ?X, fst (snd ?X), snd (snd ?X))" by simp
  with d o n show ?thesis by simp
qed

subsection \<open>Repeated symbols\<close>

lemma summarize_symbols: "Symbol ` set (summarize items) \<subseteq> fst ` set items"
  by (force simp: set_summarize summary_entry_Appended)

lemma summarize_Cons:
  "summarize ((s, d) # items) =
     (case summary_entry s d of Appended r \<Rightarrow> r # summarize items | _ \<Rightarrow> summarize items)"
  by (cases "summary_loop items") (simp add: summarize_def split: row_result.split)

lemma distinct_summarize:
  "distinct (map fst items) \<Longrightarrow> distinct (map Symbol (summarize items))"
proof (induction items)
  case Nil
  show ?case by (simp add: summarize_def)
next
  case (Cons a items)
  obtain s d where a: "a = (s, d)" by (cases a)
  from Cons have ih: "distinct (map Symbol (summarize items))" and s: "s \<notin> fst ` set items"
    by (auto simp: a)
  show ?case
  proof (cases "summary_entry s d")
    case (Appended r)
    then have "Symbol r = s" by (auto simp: summary_entry_Appended)
    with s summarize_symbols [of items] have "Symbol r \<notin> Symbol ` set (summarize items)" by blast
    with ih Appended show ?thesis by (simp add: a summarize_Cons)
  qed (simp_all add: a summarize_Cons ih)
qed

text \<open>
  Claim C4, as the code has it.  Every occurrence of a symbol is requested on its own,
  in input order.  The result is a dictionary: it has one entry for each distinct
  symbol that was answered with data, at the place of the symbol's first such answer
  and holding the frame of its last such answer, tagged with the symbol.  The summary
  has at most one row for a symbol.
\<close>

theorem duplicate_symbols_one_entry:
  assumes "fetch_crypto_data src symbols period interval st = (st', data_dict, out)"
  shows "net_log st' = net_log st @ map (\<lambda>s. (s, period, interval)) symbols
       \<and> distinct (map fst data_dict)
       \<and> map fst data_dict
           = first_seen (map fst (usable_frames (answers src (length (net_log st)) symbols period interval)))
       \<and> (\<forall>s. map_option (\<lambda>a. objs st' ! a) (map_of data_dict s)
               = map_option (\<lambda>d. setitem d ''Symbol'' (Txt s))
                   (map_of (rev (usable_frames (answers src (length (net_log st)) symbols period interval))) s))
       \<and> distinct (map Symbol (summarize (dict_items (objs st') data_dict)))"
proof -
  note inv = fetch_batch_inv [OF assms, unfolded batch_inv_def, simplified]
  from inv have k: "map fst data_dict
           = first_seen (map fst (usable_frames (answers src (length (net_log st)) symbols period interval)))"
    by blast
  then have d: "distinct (map fst data_dict)" by (simp add: distinct_first_seen)
  have "map fst (dict_items (objs st') data_dict) = map fst data_dict"
    by (simp add: dict_items_def split_def)
  with d have "distinct (map Symbol (summarize (dict_items (objs st') data_dict)))"
    using distinct_summarize [of "dict_items (objs st') data_dict"] by simp
  with inv k d show ?thesis by blast
qed

theorem duplicate_symbols_one_entry_witness:
  "fst (snd (fetch_crypto_data example_source [''AAA'', ''ZZZ'', ''AAA''] ''1mo'' ''1d'' init_state))
     = [(''AAA'', 2), (''ZZZ'', 1)]
   \<and> distinct (map fst (fst (snd (fetch_crypto_data example_source [''AAA'', ''ZZZ'', ''AAA'']
                                     ''1mo'' ''1d'' init_state))))"
proof -
  let ?X = "fetch_crypto_data example_source [''AAA'', ''ZZZ'', ''AAA''] ''1mo'' ''1d'' init_state"
  have e: "?X = (fst ?X, fst (snd ?X), snd (snd ?X))" by simp
  have c: "fst (snd ?X) = [(''AAA'', 2), (''ZZZ'', 1)]" by code_simp
  from duplicate_symbols_one_entry [OF e] have "distinct (map fst (fst (snd ?X)))" by blast
  with c show ?thesis by blast
qed

text \<open>
  The claim as written fails: two occurrences of \<open>AAA\<close> are requested twice, and the
  result and the summary hold \<open>AAA\<close> once, with the data of the second answer.
\<close>

theorem duplicate_symbols_counterexample:
  "(case fetch_crypto_data example_source [''AAA'', ''AAA''] ''1mo'' ''1d'' init_state of
      (st', data_dict, out) \<Rightarrow>
        length (net_log st') = 2 \<and> map fst data_dict = [''AAA'']
        \<and> map Symbol (summarize (dict_items (objs st') data_dict)) = [''AAA'']
        \<and> map Start_Price (summarize (dict_items (objs st') data_dict)) = [Fin 11])"
  by code_simp

subsection \<open>The handler of the button\<close>

lemma fetch_globals:
  assumes "fetch_crypto_data src symbols period interval st = (st1, dict, printed)"
  shows "net_log st1 = net_log st @ map (\<lambda>s. (s, period, interval)) symbols"
    and "latest_summary_df st1 = latest_summary_df st"
    and "latest_combined_data st1 = latest_combined_data st"
    and "take (length (objs st)) (objs st1) = objs st"
    and "length (objs st) \<le> length (objs st1)"
  using fetch_batch_inv [OF assms, unfolded batch_inv_def, simplified] by blast+

lemma display_state:
  assumes "fetch_crypto_data src (parse_symbols entry) period interval st = (st1, dict, printed)"
  shows "fst (display_crypto_data src entry period interval st) =
     (if parse_symbols entry = [] then st
      else if dict = [] then st1
      else if plot_section (dict_items (objs st1) dict) = None
              \<and> summarize (dict_items (objs st1) dict) \<noteq> []
      then st1\<lparr>latest_combined_data := Some dict,
               latest_summary_df := Some (summarize (dict_items (objs st1) dict))\<rparr>
      else st1\<lparr>latest_combined_data := Some dict\<rparr>)"
proof -
  obtain rs sk where l: "summary_loop (dict_items (objs st1) dict) = (rs, sk)"
    by (cases "summary_loop (dict_items (objs st1) dict)")
  then have rs: "summarize (dict_items (objs st1) dict) = rs" by (simp add: summarize_def)
  show ?thesis
    using assms l rs
    by (cases "plot_section (dict_items (objs st1) dict)")
       (auto simp: display_crypto_data_def Let_def)
qed

subsection \<open>Symbol input\<close>

lemma split_on_nonempty: "split_on sep s \<noteq> []"
  by (induction s) (auto split: list.splits)

lemma split_on_no_sep: "w \<in> set (split_on sep s) \<Longrightarrow> sep \<notin> set w"
proof (induction s arbitrary: w)
  case Nil
  then show ?case by simp
next
  case (Cons c cs)
  show ?case
  proof (cases "c = sep")
    case True
    with Cons show ?thesis by auto
  next
    case False
    obtain v vs where v: "split_on sep cs = v # vs"
      using split_on_nonempty [of sep cs] by (cases "split_on sep cs") auto
    with Cons.prems False have "w = c # v \<or> w \<in> set vs" by simp
    with Cons.IH [of v] Cons.IH [of w] v False show ?thesis by auto
  qed
qed

lemma set_strip: "set (strip s) \<subseteq> set s"
proof -
  have "set (strip s) \<subseteq> set (dropWhile is_space s)"
    unfolding strip_def using set_dropWhileD [of _ is_space "rev (dropWhile is_space s)"] by auto
  then show ?thesis using set_dropWhileD [of _ is_space s] by blast
qed

lemma last_dropWhile: "dropWhile P xs \<noteq> [] \<Longrightarrow> last (dropWhile P xs) = last xs"
  by (induction xs) (auto split: if_splits)

lemma dropWhile_rev_nonempty: "dropWhile P (rev xs) \<noteq> [] \<Longrightarrow> xs \<noteq> []"
  by auto

lemma strip_ends:
  assumes "strip s \<noteq> []"
  shows "\<not> is_space (hd (strip s)) \<and> \<not> is_space (last (strip s))"
proof -
  let ?t = "dropWhile is_space s"
  let ?u = "dropWhile is_space (rev ?t)"
  from assms have u: "?u \<noteq> []" by (simp add: strip_def)
  have t: "?t \<noteq> []"
    using u dropWhile_rev_nonempty [of is_space ?t] by blast
  have "last (strip s) = hd ?u" using u by (simp add: strip_def last_rev)
  moreover have "\<not> is_space (hd ?u)" using u hd_dropWhile by blast
  moreover have "hd (strip s) = last ?u" using u by (simp add: strip_def hd_rev)
  moreover have "last ?u = last (rev ?t)" using u by (rule last_dropWhile)
  moreover have "last (rev ?t) = hd ?t" using t by (simp add: last_rev)
  moreover have "\<not> is_space (hd ?t)" using t hd_dropWhile by blast
  ultimately show ?thesis by simp
qed

text \<open>
  Claim C8.  The symbols read from the entry are the comma-separated pieces, each
  stripped of surrounding whitespace, without the pieces that are then empty; so every
  symbol is non-empty, has no comma and neither begins nor ends with whitespace.  When
  none is left the handler shows the warning and returns with the state as it was, no
  request sent.  Otherwise the requests it sends are for exactly these symbols, in
  order.
\<close>

theorem symbol_input_parsing:
  "parse_symbols entry = filter (\<lambda>s. s \<noteq> []) (map strip (split_on CHR '','' entry))
   \<and> list_all (\<lambda>s. s \<noteq> [] \<and> CHR '','' \<notin> set s \<and> \<not> is_space (hd s) \<and> \<not> is_space (last s))
        (parse_symbols entry)
   \<and> (if parse_symbols entry = []
       then display_crypto_data src entry period interval st
              = (st, [WarningBox ''Input Error'' ''Please enter at least one cryptocurrency symbol.''])
       else net_log (fst (display_crypto_data src entry period interval st))
              = net_log st @ map (\<lambda>s. (s, period, interval)) (parse_symbols entry))"
proof (intro conjI)
  show p: "parse_symbols entry = filter (\<lambda>s. s \<noteq> []) (map strip (split_on CHR '','' entry))"
    by (simp add: parse_symbols_def filter_map comp_def)
  show "list_all (\<lambda>s. s \<noteq> [] \<and> CHR '','' \<notin> set s \<and> \<not> is_space (hd s) \<and> \<not> is_space (last s))
        (parse_symbols entry)"
    unfolding list_all_iff
  proof
    fix s assume "s \<in> set (parse_symbols entry)"
    then obtain w where w: "w \<in> set (split_on CHR '','' entry)" "s = strip w" "s \<noteq> []"
      unfolding p by auto
    from w(1) have "CHR '','' \<notin> set w" by (rule split_on_no_sep)
    with set_strip [of w] w(2) have "CHR '','' \<notin> set s" by blast
    with w(2,3) strip_ends [of w]
    show "s \<noteq> [] \<and> CHR '','' \<notin> set s \<and> \<not> is_space (hd s) \<and> \<not> is_space (last s)" by simp
  qed
  show "if parse_symbols entry = []
       then display_crypto_data src entry period interval st
              = (st, [WarningBox ''Input Error'' ''Please enter at least one cryptocurrency symbol.''])
       else net_log (fst (display_crypto_data src entry period interval st))
              = net_log st @ map (\<lambda>s. (s, period, interval)) (parse_symbols entry)"
  proof (cases "parse_symbols entry = []")
    case True
    then show ?thesis by (simp add: display_crypto_data_def)
  next
    case False
    obtain st1 dict printed where
      f: "fetch_crypto_data src (parse_symbols entry) period interval st = (st1, dict, printed)"
      by (cases "fetch_crypto_data src (parse_symbols entry) period interval st")
    show ?thesis
      using False fetch_globals(1) [OF f] by (simp add: display_state [OF f])
  qed
qed

theorem symbol_input_parsing_witness:
  "parse_symbols '' AAA , ,BBB,,ZZZ '' = [''AAA'', ''BBB'', ''ZZZ'']
   \<and> net_log (fst (display_crypto_data example_source '' AAA , ,BBB,,ZZZ '' ''1mo'' ''1d'' init_state))
       = [(''AAA'', ''1mo'', ''1d''), (''BBB'', ''1mo'', ''1d''), (''ZZZ'', ''1mo'', ''1d'')]
   \<and> display_crypto_data example_source '' , '' ''1mo'' ''1d'' init_state
       = (init_state, [WarningBox ''Input Error'' ''Please enter at least one cryptocurrency symbol.''])"
proof -
  have p: "parse_symbols '' AAA , ,BBB,,ZZZ '' = [''AAA'', ''BBB'', ''ZZZ'']" by code_simp
  have q: "parse_symbols '' , '' = []" by code_simp
  have n: "net_log init_state = []" by (simp add: init_state_def)
  from symbol_input_parsing [of "'' AAA , ,BBB,,ZZZ ''" example_source "''1mo''" "''1d''" init_state]
  have a: "net_log (fst (display_crypto_data example_source '' AAA , ,BBB,,ZZZ '' ''1mo'' ''1d'' init_state))
       = [(''AAA'', ''1mo'', ''1d''), (''BBB'', ''1mo'', ''1d''), (''ZZZ'', ''1mo'', ''1d'')]"
    unfolding p n by simp
  from symbol_input_parsing [of "'' , ''" example_source "''1mo''" "''1d''" init_state]
  have b: "display_crypto_data example_source '' , '' ''1mo'' ''1d'' init_state
       = (init_state, [WarningBox ''Input Error'' ''Please enter at least one cryptocurrency symbol.''])"
    unfolding q by simp
  from p a b show ?thesis by blast
qed

subsection \<open>The stored snapshot\<close>

lemma export_summary_state: "fst (export_summary_to_csv file_path io st) = st"
  by (simp add: export_summary_to_csv_def split: option.split)

lemma export_full_state:
  "latest_combined_data (fst (export_full_data_to_csv file_path io st)) = latest_combined_data st"
  "latest_summary_df (fst (export_full_data_to_csv file_path io st)) = latest_summary_df st"
  "net_log (fst (export_full_data_to_csv file_path io st)) = net_log st"
  "take (length (objs st)) (objs (fst (export_full_data_to_csv file_path io st))) = objs st"
  "length (objs st) \<le> length (objs (fst (export_full_data_to_csv file_path io st)))"
  by (simp_all add: export_full_data_to_csv_def Let_def split: option.split sum.split)

lemma dict_items_prefix:
  assumes "list_all (\<lambda>(s, a). a < length os) d" and "take (length os) os' = os"
  shows "dict_items os' d = dict_items os d"
proof -
  have "\<And>a. a < length os \<Longrightarrow> os' ! a = os ! a"
    using assms(2) by (metis nth_take)
  with assms(1) show ?thesis
    unfolding dict_items_def list_all_iff by auto
qed

lemma refs_ok_extend:
  assumes "refs_ok st" and "latest_combined_data st' = latest_combined_data st"
    and "length (objs st) \<le> length (objs st')"
  shows "refs_ok st'"
  using assms unfolding refs_ok_def list_all_iff by (auto split: option.splits)

lemma refs_ok_display:
  assumes "refs_ok st"
  shows "refs_ok (fst (display_crypto_data src entry period interval st))"
proof -
  obtain st1 dict printed where
    f: "fetch_crypto_data src (parse_symbols entry) period interval st = (st1, dict, printed)"
    by (cases "fetch_crypto_data src (parse_symbols entry) period interval st")
  have old: "refs_ok st1"
    using refs_ok_extend [OF assms fetch_globals(3) [OF f] fetch_globals(5) [OF f]] .
  have new: "dict \<noteq> [] \<Longrightarrow> list_all (\<lambda>(s, a). a < length (objs st1)) dict"
    unfolding list_all_iff using fetch_value [OF f] by auto
  show ?thesis
    unfolding display_state [OF f] using assms old new by (simp add: refs_ok_def)
qed

lemma reachable_refs_ok: "reachable src st \<Longrightarrow> refs_ok st"
proof (induction rule: reachable.induct)
  case start
  show ?case by (simp add: refs_ok_def init_state_def)
next
  case (display st entry period interval)
  then show ?case by (simp add: refs_ok_display)
next
  case (export_summary st file_path io)
  then show ?case by (simp add: export_summary_state)
next
  case (export_full st file_path io)
  then show ?case using refs_ok_extend export_full_state(1,5) by blast
qed

text \<open>
  Claim C10.  In every state the process reaches, the stored dictionary of frames is
  absent or non-empty, so the concatenation of the full export never meets an empty
  collection and does not raise for that reason.  A fetch that returns the empty
  dictionary leaves the stored one as it was.
\<close>

theorem stored_mapping_never_empty:
  assumes "reachable src st"
  shows "latest_combined_data st \<noteq> Some []
       \<and> (case latest_combined_data st of
            None \<Rightarrow> True
          | Some d \<Rightarrow> \<exists>c. pd_concat (map snd (dict_items (objs st) d)) = Inr c)
       \<and> (fst (snd (fetch_crypto_data src (parse_symbols entry) period interval st)) = [] \<longrightarrow>
            latest_combined_data (fst (display_crypto_data src entry period interval st))
              = latest_combined_data st)"
proof -
  have r: "refs_ok st" using assms by (rule reachable_refs_ok)
  then have a: "latest_combined_data st \<noteq> Some []" by (auto simp: refs_ok_def)
  have b: "case latest_combined_data st of
            None \<Rightarrow> True
          | Some d \<Rightarrow> \<exists>c. pd_concat (map snd (dict_items (objs st) d)) = Inr c"
    using r by (auto simp: refs_ok_def pd_concat_def dict_items_def split: option.split)
  obtain st1 dict printed where
    f: "fetch_crypto_data src (parse_symbols entry) period interval st = (st1, dict, printed)"
    by (cases "fetch_crypto_data src (parse_symbols entry) period interval st")
  have c: "fst (snd (fetch_crypto_data src (parse_symbols entry) period interval st)) = [] \<longrightarrow>
            latest_combined_data (fst (display_crypto_data src entry period interval st))
              = latest_combined_data st"
    using fetch_globals(3) [OF f] by (simp add: display_state [OF f] f)
  from a b c show ?thesis by blast
qed

theorem stored_mapping_never_empty_witness:
  "reachable example_source (fst (display_crypto_data example_source ''AAA, BBB'' ''1mo'' ''1d''
      (fst (display_crypto_data example_source ''QQQ'' ''1mo'' ''1d'' init_state))))
   \<and> latest_combined_data (fst (display_crypto_data example_source ''QQQ'' ''1mo'' ''1d'' init_state))
       = None
   \<and> latest_combined_data (fst (display_crypto_data example_source ''AAA, BBB'' ''1mo'' ''1d''
      (fst (display_crypto_data example_source ''QQQ'' ''1mo'' ''1d'' init_state)))) \<noteq> Some []"
proof -
  let ?s1 = "fst (display_crypto_data example_source ''QQQ'' ''1mo'' ''1d'' init_state)"
  let ?s2 = "fst (display_crypto_data example_source ''AAA, BBB'' ''1mo'' ''1d'' ?s1)"
  have r: "reachable example_source ?s2"
    by (intro reachable.display reachable.start)
  have n: "latest_combined_data ?s1 = None" by code_simp
  from stored_mapping_never_empty [OF r] have "latest_combined_data ?s2 \<noteq> Some []" by blast
  with r n show ?thesis by blast
qed




subsection \<open>The exports\<close>

lemma export_full_output_cong:
  assumes "latest_combined_data st' = latest_combined_data st"
    and "case latest_combined_data st of None \<Rightarrow> True
         | Some d \<Rightarrow> dict_items (objs st') d = dict_items (objs st) d"
  shows "snd (export_full_data_to_csv file_path io st') = snd (export_full_data_to_csv file_path io st)"
  using assms
  by (auto simp: export_full_data_to_csv_def Let_def split: option.splits sum.splits)

lemma export_summary_output_cong:
  assumes "latest_summary_df st' = latest_summary_df st"
  shows "snd (export_summary_to_csv file_path io st') = snd (export_summary_to_csv file_path io st)"
  using assms
  by (auto simp: export_summary_to_csv_def split: option.splits)

text \<open>
  Claim C9.  In every state the process reaches, the summary export returns the state
  as it was.  The full export leaves both globals and every stored frame as they were:
  the frame it concatenates and re-indexes in place is a new object.  So the frames
  of the stored dictionary read the same afterwards, and an export made after an
  export shows and writes what it would have without it.
\<close>

theorem exports_read_only:
  assumes "reachable src st"
  shows "fst (export_summary_to_csv file_path io st) = st
       \<and> latest_combined_data (fst (export_full_data_to_csv file_path io st)) = latest_combined_data st
       \<and> latest_summary_df (fst (export_full_data_to_csv file_path io st)) = latest_summary_df st
       \<and> take (length (objs st)) (objs (fst (export_full_data_to_csv file_path io st))) = objs st
       \<and> (case latest_combined_data st of
            None \<Rightarrow> True
          | Some d \<Rightarrow> dict_items (objs (fst (export_full_data_to_csv file_path io st))) d
                        = dict_items (objs st) d)
       \<and> snd (export_full_data_to_csv file_path' io' (fst (export_full_data_to_csv file_path io st)))
           = snd (export_full_data_to_csv file_path' io' st)
       \<and> snd (export_summary_to_csv file_path' io' (fst (export_full_data_to_csv file_path io st)))
           = snd (export_summary_to_csv file_path' io' st)
       \<and> snd (export_summary_to_csv file_path' io' (fst (export_summary_to_csv file_path io st)))
           = snd (export_summary_to_csv file_path' io' st)"
proof -
  let ?st' = "fst (export_full_data_to_csv file_path io st)"
  have r: "refs_ok st" using assms by (rule reachable_refs_ok)
  have same: "case latest_combined_data st of
            None \<Rightarrow> True
          | Some d \<Rightarrow> dict_items (objs ?st') d = dict_items (objs st) d"
  proof (cases "latest_combined_data st")
    case None
    then show ?thesis by simp
  next
    case (Some d)
    with r have "list_all (\<lambda>(s, a). a < length (objs st)) d" by (simp add: refs_ok_def)
    then have "dict_items (objs ?st') d = dict_items (objs st) d"
      using export_full_state(4) by (rule dict_items_prefix)
    with Some show ?thesis by simp
  qed
  show ?thesis
    using same export_full_output_cong [OF export_full_state(1) same]
      export_summary_output_cong [OF export_full_state(2)]
    by (simp add: export_summary_state export_full_state)
qed

theorem exports_read_only_witness:
  "reachable example_source (fst (display_crypto_data example_source ''AAA, ZZZ'' ''1mo'' ''1d'' init_state))
   \<and> map_option (lines \<circ> snd) (snd (snd (export_full_data_to_csv ''again.csv'' None
        (fst (export_full_data_to_csv ''full.csv'' None
          (fst (display_crypto_data example_source ''AAA, ZZZ'' ''1mo'' ''1d'' init_state)))))))
     = Some [[Stamp 0, Num (Fin 10), Txt ''AAA''], [Stamp 1, Num (Fin 12), Txt ''AAA''],
             [Stamp 2, Num (Fin 15), Txt ''AAA''], [Stamp 0, Num (Fin 0), Txt ''ZZZ''],
             [Stamp 1, Num (Fin 5), Txt ''ZZZ'']]"
proof -
  let ?s = "fst (display_crypto_data example_source ''AAA, ZZZ'' ''1mo'' ''1d'' init_state)"
  have r: "reachable example_source ?s"
    by (intro reachable.display reachable.start)
  have o: "map_option (lines \<circ> snd) (snd (snd (export_full_data_to_csv ''again.csv'' None ?s)))
     = Some [[Stamp 0, Num (Fin 10), Txt ''AAA''], [Stamp 1, Num (Fin 12), Txt ''AAA''],
             [Stamp 2, Num (Fin 15), Txt ''AAA''], [Stamp 0, Num (Fin 0), Txt ''ZZZ''],
             [Stamp 1, Num (Fin 5), Txt ''ZZZ'']]"
    by code_simp
  from exports_read_only [OF r, of "''full.csv''" None "''again.csv''" None]
  have "snd (export_full_data_to_csv ''again.csv'' None (fst (export_full_data_to_csv ''full.csv'' None ?s)))
           = snd (export_full_data_to_csv ''again.csv'' None ?s)" by blast
  with r o show ?thesis by simp
qed

subsection \<open>The combined data\<close>

lemma set_union_columns: "set (union_columns frames) = (\<Union>d \<in> set frames. set (columns d))"
  by (simp add: union_columns_def)

lemma combine_rows:
  assumes "combine frames = Inr out"
  obtains name where
    "name \<notin> set (union_columns frames)"
    "columns out = name # union_columns frames"
    "rows out = map (\<lambda>(k, r). \<lparr>label = Pos k, cells = label r # cells r\<rparr>)
                  (enumerate 0 (concat (map (\<lambda>d. map (realign (union_columns frames) (columns d)) (rows d))
                                            frames)))"
proof -
  from assms obtain c where c: "pd_concat frames = Inr c" "reset_index c = Inr out"
    by (auto simp: combine_def split: sum.splits)
  from c(1) have cc: "columns c = union_columns frames"
    "rows c = concat (map (\<lambda>d. map (realign (union_columns frames) (columns d)) (rows d)) frames)"
    by (auto simp: pd_concat_def split: if_splits)
  let ?name = "case index_name c of
                    Some n \<Rightarrow> n
                  | None \<Rightarrow> (if has_column c ''index'' then ''level_0'' else ''index'')"
  from c(2) have "?name \<notin> set (columns c)" "columns out = ?name # columns c"
    "rows out = map (\<lambda>(k, r). \<lparr>label = Pos k, cells = label r # cells r\<rparr>) (enumerate 0 (rows c))"
    by (auto simp: reset_index_def Let_def has_column_def split: if_splits)
  then show ?thesis using that [of ?name] cc by simp
qed

lemma mem_enumerate: "x \<in> set xs \<Longrightarrow> \<exists>k. (k, x) \<in> set (enumerate n xs)"
  by (induction xs arbitrary: n) auto

lemma combine_carries:
  assumes "combine frames = Inr out" and "d \<in> set frames" and "r \<in> set (rows d)"
  shows "\<exists>r' \<in> set (rows out). carries out r' d r"
proof -
  let ?U = "union_columns frames"
  let ?f = "\<lambda>c. case map_of (zip (columns d) (cells r)) c of Some v \<Rightarrow> v | None \<Rightarrow> Num NaN"
  let ?all = "concat (map (\<lambda>d. map (realign ?U (columns d)) (rows d)) frames)"
  from combine_rows [OF assms(1)] obtain name where n:
    "name \<notin> set ?U" "columns out = name # ?U"
    "rows out = map (\<lambda>(k, r). \<lparr>label = Pos k, cells = label r # cells r\<rparr>) (enumerate 0 ?all)"
    by blast
  have "realign ?U (columns d) r \<in> set ?all" using assms(2,3) by auto
  then obtain k where "(k, realign ?U (columns d) r) \<in> set (enumerate 0 ?all)"
    using mem_enumerate by fast
  then have "(\<lambda>(k, r). \<lparr>label = Pos k, cells = label r # cells r\<rparr>) (k, realign ?U (columns d) r)
               \<in> set (rows out)"
    unfolding n(3) set_map by (rule imageI)
  then have mem: "\<lparr>label = Pos k, cells = label r # map ?f ?U\<rparr> \<in> set (rows out)"
    by (simp add: realign_def)
  have sub: "set (columns d) \<subseteq> set ?U" using assms(2) by (auto simp: set_union_columns)
  have "carries out \<lparr>label = Pos k, cells = label r # map ?f ?U\<rparr> d r"
    unfolding carries_def list_all_iff
  proof (intro conjI ballI)
    show "hd (cells \<lparr>label = Pos k, cells = label r # map ?f ?U\<rparr>) = label r" by simp
  next
    fix nm assume nm: "nm \<in> set (columns d)"
    with sub n(1) have ne: "nm \<noteq> name" and inU: "nm \<in> set ?U" by auto
    have "cell_of (columns out) \<lparr>label = Pos k, cells = label r # map ?f ?U\<rparr> nm = Some (?f nm)"
      using ne inU by (simp add: cell_of_def n(2) map_of_zip_map)
    then show "case cell_of (columns d) r nm of None \<Rightarrow> True
               | Some v \<Rightarrow> cell_of (columns out) \<lparr>label = Pos k, cells = label r # map ?f ?U\<rparr> nm = Some v"
      by (simp add: cell_of_def split: option.split)
  qed
  with mem show ?thesis by blast
qed

lemma combine_length:
  assumes "combine frames = Inr out"
  shows "length (rows out) = sum_list (map (\<lambda>d. length (rows d)) frames)"
proof -
  from combine_rows [OF assms] obtain name :: string where
    "rows out = map (\<lambda>(k, r). \<lparr>label = Pos k, cells = label r # cells r\<rparr>)
                  (enumerate 0 (concat (map (\<lambda>d. map (realign (union_columns frames) (columns d)) (rows d))
                                            frames)))" by blast
  then show ?thesis by (simp add: length_concat comp_def)
qed

text \<open>
  Claim C5.  Take a fetch result, a dictionary, in which the series of symbol \<open>s\<close>
  starts at a closing price of zero.  The summary has no row for \<open>s\<close>.  When the
  combination of the result succeeds, every row of the series of \<open>s\<close> is carried by a
  row of the combined frame, and the combined frame has as many rows as all the series
  together: no series is left out.
\<close>

theorem zero_start_excluded_but_combined:
  assumes "distinct (map fst R)" and "(s, d) \<in> set R"
    and "getitem_flat d ''Close'' = c # cs" and "py_float c = Inr p" and "is_zero p"
    and "combine (map snd R) = Inr out"
  shows "s \<notin> Symbol ` set (summarize R)
       \<and> list_all (\<lambda>r. \<exists>r' \<in> set (rows out). carries out r' d r) (rows d)
       \<and> length (rows out) = sum_list (map (\<lambda>(s, d). length (rows d)) R)"
proof (intro conjI)
  show "s \<notin> Symbol ` set (summarize R)"
  proof
    assume "s \<in> Symbol ` set (summarize R)"
    then obtain r s' d' where r: "(s', d') \<in> set R" "summary_entry s' d' = Appended r" "Symbol r = s"
      unfolding set_summarize by auto
    from r(2) have e: "\<exists>c' cs' p'. getitem_flat d' ''Close'' = c' # cs' \<and> py_float c' = Inr p'
                        \<and> \<not> is_zero p'" and "Symbol r = s'"
      unfolding summary_entry_Appended by auto
    with r(3) have "s' = s" by simp
    with r(1) assms(1,2) have "d' = d" by (meson eq_key_imp_eq_value)
    with e assms(3,4,5) show False by auto
  qed
  have "d \<in> set (map snd R)" using assms(2) by force
  then show "list_all (\<lambda>r. \<exists>r' \<in> set (rows out). carries out r' d r) (rows d)"
    unfolding list_all_iff using combine_carries [OF assms(6)] by blast
  show "length (rows out) = sum_list (map (\<lambda>(s, d). length (rows d)) R)"
    using combine_length [OF assms(6)] by (simp add: comp_def split_def)
qed

theorem zero_start_excluded_but_combined_witness:
  "distinct (map fst [(''AAA'', setitem (close_frame [Fin 10, Fin 12, Fin 15]) ''Symbol'' (Txt ''AAA'')),
                      (''ZZZ'', setitem (close_frame [Fin 0, Fin 5]) ''Symbol'' (Txt ''ZZZ''))])
   \<and> ''ZZZ'' \<notin> Symbol ` set (summarize
         [(''AAA'', setitem (close_frame [Fin 10, Fin 12, Fin 15]) ''Symbol'' (Txt ''AAA'')),
          (''ZZZ'', setitem (close_frame [Fin 0, Fin 5]) ''Symbol'' (Txt ''ZZZ''))])
   \<and> map cells (rows (projr (combine
         [setitem (close_frame [Fin 10, Fin 12, Fin 15]) ''Symbol'' (Txt ''AAA''),
          setitem (close_frame [Fin 0, Fin 5]) ''Symbol'' (Txt ''ZZZ'')])))
       = [[Stamp 0, Num (Fin 10), Txt ''AAA''], [Stamp 1, Num (Fin 12), Txt ''AAA''],
          [Stamp 2, Num (Fin 15), Txt ''AAA''], [Stamp 0, Num (Fin 0), Txt ''ZZZ''],
          [Stamp 1, Num (Fin 5), Txt ''ZZZ'']]"
proof -
  let ?a = "setitem (close_frame [Fin 10, Fin 12, Fin 15]) ''Symbol'' (Txt ''AAA'')"
  let ?z = "setitem (close_frame [Fin 0, Fin 5]) ''Symbol'' (Txt ''ZZZ'')"
  let ?R = "[(''AAA'', ?a), (''ZZZ'', ?z)]"
  have h1: "distinct (map fst ?R)" by simp
  have h2: "(''ZZZ'', ?z) \<in> set ?R" by simp
  have h3: "getitem_flat ?z ''Close'' = Num (Fin 0) # [Num (Fin 5)]" by code_simp
  have h4: "py_float (Num (Fin 0)) = Inr (Fin 0)" by simp
  have h5: "is_zero (Fin 0)" by simp
  have h6: "combine (map snd ?R) = Inr (projr (combine (map snd ?R)))" by code_simp
  have c: "map cells (rows (projr (combine [?a, ?z])))
       = [[Stamp 0, Num (Fin 10), Txt ''AAA''], [Stamp 1, Num (Fin 12), Txt ''AAA''],
          [Stamp 2, Num (Fin 15), Txt ''AAA''], [Stamp 0, Num (Fin 0), Txt ''ZZZ''],
          [Stamp 1, Num (Fin 5), Txt ''ZZZ'']]" by code_simp
  from zero_start_excluded_but_combined [OF h1 h2 h3 h4 h5 h6]
  have "''ZZZ'' \<notin> Symbol ` set (summarize ?R)" by blast
  with h1 c show ?thesis by blast
qed

end
